theory Spec2Isabelle
  imports Complex_Main
begin

section \<open>Path and name utilities\<close>

text \<open>
  JavaScript strings are modelled as \<^typ>\<open>string\<close>: one \<^typ>\<open>char\<close> per code unit,
  for code units below 256.
\<close>

definition slash :: char where
  "slash = CHR ''/''"

definition backslash :: char where
  "backslash = CHR 0x5C"

text \<open>\<^verbatim>\<open>str.replace(/^\/+/, '')\<close> and \<^verbatim>\<open>str.replace(/\/+$/, '')\<close>.\<close>

definition strip_leading :: "(char \<Rightarrow> bool) \<Rightarrow> string \<Rightarrow> string" where
  "strip_leading p s = dropWhile p s"

definition strip_trailing :: "(char \<Rightarrow> bool) \<Rightarrow> string \<Rightarrow> string" where
  "strip_trailing p s = rev (dropWhile p (rev s))"

definition normalizeUploadPath :: "string \<Rightarrow> string" where
  "normalizeUploadPath v =
     strip_trailing (\<lambda>c. c = slash)
       (strip_leading (\<lambda>c. c = slash)
         (map (\<lambda>c. if c = backslash then slash else c) v))"

text \<open>\<^verbatim>\<open>str.split(sep)\<close> for a one-character separator: never the empty list.\<close>

fun split_on :: "char \<Rightarrow> string \<Rightarrow> string list" where
  "split_on sep [] = [[]]"
| "split_on sep (c # cs) =
     (if c = sep then [] # split_on sep cs
      else (case split_on sep cs of
              [] \<Rightarrow> [[c]]
            | w # ws \<Rightarrow> (c # w) # ws))"

text \<open>\<^verbatim>\<open>segments.join(sep)\<close>.\<close>

fun join_with :: "string \<Rightarrow> string list \<Rightarrow> string" where
  "join_with sep [] = []"
| "join_with sep [x] = x"
| "join_with sep (x # y # ys) = x @ sep @ join_with sep (y # ys)"

definition keep_segment :: "string \<Rightarrow> bool" where
  "keep_segment seg \<longleftrightarrow> seg \<noteq> [] \<and> seg \<noteq> ''.''"

text \<open>The body of the outer loop of \<^verbatim>\<open>joinUploadPath\<close>: the segments one part contributes.\<close>

definition part_segments :: "string \<Rightarrow> string list" where
  "part_segments part =
     (let normalized = normalizeUploadPath part
      in if normalized = [] then []
         else filter keep_segment (split_on slash normalized))"

definition joinUploadPath :: "string list \<Rightarrow> string" where
  "joinUploadPath parts = join_with ''/'' (concat (map part_segments parts))"

text \<open>
  \<^verbatim>\<open>String.prototype.trim\<close>: the white space and line terminator code units below 256
  (TAB, LF, VT, FF, CR, SP, NBSP).
\<close>

definition is_js_space :: "char \<Rightarrow> bool" where
  "is_js_space c \<longleftrightarrow> c \<in> {CHR 0x09, CHR 0x0A, CHR 0x0B, CHR 0x0C, CHR 0x0D, CHR 0x20, CHR 0xA0}"

definition trim :: "string \<Rightarrow> string" where
  "trim s = strip_trailing is_js_space (strip_leading is_js_space s)"

text \<open>The character class \<^verbatim>\<open>[\\/:*?"<>|]\<close>.\<close>

definition unsafe_char :: "char \<Rightarrow> bool" where
  "unsafe_char c \<longleftrightarrow>
     c \<in> {backslash, slash, CHR '':'', CHR ''*'', CHR ''?'', CHR 0x22, CHR ''<'', CHR ''>'', CHR ''|''}"

text \<open>
  \<^verbatim>\<open>str.replace(/[\\/:*?"<>|]+/g, '_')\<close>: every maximal run of characters of the class
  is replaced by one underscore.
\<close>

function replace_unsafe_runs :: "string \<Rightarrow> string" where
  "replace_unsafe_runs [] = []"
| "replace_unsafe_runs (c # cs) =
     (if unsafe_char c then CHR ''_'' # replace_unsafe_runs (dropWhile unsafe_char cs)
      else c # replace_unsafe_runs cs)"
  by pat_completeness auto
termination
  by (relation "measure length") (auto simp: length_dropWhile_le less_Suc_eq_le)

definition sanitizeFileName :: "string \<Rightarrow> string \<Rightarrow> string" where
  "sanitizeFileName name fallbackId =
     (let normalized = replace_unsafe_runs (trim name)
      in if normalized \<noteq> [] then normalized else fallbackId @ ''.jpg'')"

text \<open>\<^verbatim>\<open>str.lastIndexOf(c)\<close>: the last position of \<open>c\<close>, or \<open>-1\<close>.\<close>

definition lastIndexOf :: "char \<Rightarrow> string \<Rightarrow> int" where
  "lastIndexOf c s =
     (case dropWhile (\<lambda>x. x \<noteq> c) (rev s) of
        [] \<Rightarrow> -1
      | _ # prefix \<Rightarrow> int (length prefix))"

definition splitNameAndExt :: "string \<Rightarrow> string \<times> string" where
  "splitNameAndExt fileName =
     (let raw = fileName; lastDot = lastIndexOf CHR ''.'' raw
      in if lastDot \<le> 0 then (raw, [])
         else (take (nat lastDot) raw, drop (nat lastDot) raw))"

text \<open>Decimal rendering of a natural number, as a template literal renders an integer.\<close>

definition digit_char :: "nat \<Rightarrow> char" where
  "digit_char d = ''0123456789'' ! d"

fun decimal :: "nat \<Rightarrow> string" where
  "decimal n = (if n < 10 then [digit_char n] else decimal (n div 10) @ [digit_char (n mod 10)])"

declare decimal.simps [simp del]

section \<open>JavaScript numbers\<close>

text \<open>
  A JavaScript number is \<^verbatim>\<open>NaN\<close>, an infinity or a finite value. Byte counts and offsets
  are numbers with an integer value; the index of a batch result and the attempt of a
  rename are numbers with a rational value. Comparisons,
  \<^verbatim>\<open>Math.max\<close> and \<^verbatim>\<open>Math.min\<close> are those of JavaScript. Sums and differences of finite
  values are exact, as they are in JavaScript for integers up to \<open>2^53\<close>.
\<close>

datatype 'a jsnum = NaN | PosInfinity | NegInfinity | Finite 'a

fun js_le :: "'a::linorder jsnum \<Rightarrow> 'a jsnum \<Rightarrow> bool" where
  "js_le (Finite a) (Finite b) = (a \<le> b)"
| "js_le NaN y = False"
| "js_le x NaN = False"
| "js_le NegInfinity y = True"
| "js_le x PosInfinity = True"
| "js_le x y = False"

fun js_lt :: "'a::linorder jsnum \<Rightarrow> 'a jsnum \<Rightarrow> bool" where
  "js_lt (Finite a) (Finite b) = (a < b)"
| "js_lt NaN y = False"
| "js_lt x NaN = False"
| "js_lt PosInfinity y = False"
| "js_lt x NegInfinity = False"
| "js_lt x y = True"

definition js_ge :: "'a::linorder jsnum \<Rightarrow> 'a jsnum \<Rightarrow> bool" where
  "js_ge x y = js_le y x"

text \<open>\<^verbatim>\<open>Math.max(x, y)\<close> and \<^verbatim>\<open>Math.min(x, y)\<close>.\<close>

definition js_max :: "'a::linorder jsnum \<Rightarrow> 'a jsnum \<Rightarrow> 'a jsnum" where
  "js_max x y = (if x = NaN \<or> y = NaN then NaN else if js_le x y then y else x)"

definition js_min :: "'a::linorder jsnum \<Rightarrow> 'a jsnum \<Rightarrow> 'a jsnum" where
  "js_min x y = (if x = NaN \<or> y = NaN then NaN else if js_le x y then x else y)"

fun js_neg :: "int jsnum \<Rightarrow> int jsnum" where
  "js_neg NaN = NaN"
| "js_neg PosInfinity = NegInfinity"
| "js_neg NegInfinity = PosInfinity"
| "js_neg (Finite a) = Finite (- a)"

fun js_add :: "int jsnum \<Rightarrow> int jsnum \<Rightarrow> int jsnum" where
  "js_add (Finite a) (Finite b) = Finite (a + b)"
| "js_add NaN y = NaN"
| "js_add x NaN = NaN"
| "js_add PosInfinity NegInfinity = NaN"
| "js_add NegInfinity PosInfinity = NaN"
| "js_add PosInfinity y = PosInfinity"
| "js_add NegInfinity y = NegInfinity"
| "js_add x PosInfinity = PosInfinity"
| "js_add x NegInfinity = NegInfinity"

definition js_sub :: "int jsnum \<Rightarrow> int jsnum \<Rightarrow> int jsnum" where
  "js_sub x y = js_add x (js_neg y)"

text \<open>\<^verbatim>\<open>x || 0\<close> on a number: \<^verbatim>\<open>NaN\<close> and zero are falsy.\<close>

definition or_zero :: "int jsnum \<Rightarrow> int jsnum" where
  "or_zero x = (if x = NaN then Finite 0 else x)"

definition isFinite :: "'a jsnum \<Rightarrow> bool" where
  "isFinite x = (case x of Finite a \<Rightarrow> True | _ \<Rightarrow> False)"

text \<open>\<^verbatim>\<open>Number.isInteger\<close>.\<close>

definition is_integer :: "rat \<Rightarrow> bool" where
  "is_integer r \<longleftrightarrow> of_int \<lfloor>r\<rfloor> = r"

definition isInteger :: "rat jsnum \<Rightarrow> bool" where
  "isInteger x = (case x of Finite r \<Rightarrow> is_integer r | _ \<Rightarrow> False)"

text \<open>
  The text of a number in a template literal. An integer of magnitude below \<open>2^53\<close> is
  written in decimal. The text that \<^verbatim>\<open>Number.prototype.toString\<close> gives any other finite
  number (exponent notation, shortest digits) is the parameter \<open>other\<close>.
\<close>

definition numberToString :: "(rat \<Rightarrow> string) \<Rightarrow> rat jsnum \<Rightarrow> string" where
  "numberToString other x =
     (case x of
        NaN \<Rightarrow> ''NaN''
      | PosInfinity \<Rightarrow> ''Infinity''
      | NegInfinity \<Rightarrow> ''-Infinity''
      | Finite r \<Rightarrow>
          if is_integer r \<and> \<bar>r\<bar> < 2 ^ 53
          then (if r < 0 then ''-'' else []) @ decimal (nat \<bar>\<lfloor>r\<rfloor>\<bar>)
          else other r)"

definition addConflictSuffix :: "(rat \<Rightarrow> string) \<Rightarrow> string \<Rightarrow> rat jsnum \<Rightarrow> string" where
  "addConflictSuffix other fileName attempt =
     (if \<not> isFinite attempt \<or> js_le attempt (Finite 0) then fileName
      else (case splitNameAndExt fileName of
              (name, ext) \<Rightarrow> name @ '' ('' @ numberToString other attempt @ '')'' @ ext))"

section \<open>Data model\<close>

datatype SyncStage = Idle | Planning | Uploading | Mirroring | Done | Error | Cancelled

datatype SyncSource = SourceCamera | SourceFolder

datatype SyncConflictPolicy = PolicySkip | PolicyOverwrite | PolicyRename

datatype CandidateKind = Camera | Folder

record UploadCandidate =
  kind :: CandidateKind
  displayName :: string
  localUri :: string
  size_bytes :: "int jsnum"
  initialOffset :: "int jsnum"
  remoteTarget :: string
  monthBucket :: string
  capturedAtIso :: string
  overwrite :: bool

record LocalFolderFile =
  fileUri :: string
  relativePath :: string
  fileDisplayName :: string
  fileSize :: "int jsnum"

definition MAX_RENAME_ATTEMPTS :: nat where
  "MAX_RENAME_ATTEMPTS = 50"

definition STATUS_BATCH_SIZE :: nat where
  "STATUS_BATCH_SIZE = 60"

definition DELETE_BATCH_SIZE :: nat where
  "DELETE_BATCH_SIZE = 100"

definition LIST_PAGE_SIZE :: nat where
  "LIST_PAGE_SIZE = 200"

definition MIN_CHUNK_BYTES :: int where
  "MIN_CHUNK_BYTES = 256 * 1024"

definition MAX_CHUNK_BYTES :: int where
  "MAX_CHUNK_BYTES = 2 * 1024 * 1024"

subsection \<open>Renaming\<close>

definition renameRemoteTarget :: "(rat \<Rightarrow> string) \<Rightarrow> string \<Rightarrow> rat jsnum \<Rightarrow> string" where
  "renameRemoteTarget other target attempt =
     (let normalized = normalizeUploadPath target
      in if normalized = [] then normalized
         else (let parts = split_on slash normalized;
                   fileName = last parts;
                   rest = butlast parts;
                   nextName = addConflictSuffix other fileName attempt
               in if rest \<noteq> [] then join_with ''/'' rest @ ''/'' @ nextName else nextName))"

definition renameCandidateForAttempt ::
  "(rat \<Rightarrow> string) \<Rightarrow> UploadCandidate \<Rightarrow> rat jsnum \<Rightarrow> UploadCandidate" where
  "renameCandidateForAttempt other candidate attempt =
     (if js_le attempt (Finite 0) then candidate
      else if kind candidate = Camera then
        candidate\<lparr>displayName := addConflictSuffix other (displayName candidate) attempt,
                  overwrite := False\<rparr>
      else (let nextTarget = renameRemoteTarget other (remoteTarget candidate) attempt
            in candidate\<lparr>remoteTarget := nextTarget, displayName := nextTarget,
                         overwrite := False\<rparr>))"


definition buildFolderCandidates :: "LocalFolderFile list \<Rightarrow> string \<Rightarrow> UploadCandidate list" where
  "buildFolderCandidates files uploadBasePath =
     map (\<lambda>file.
            \<lparr>kind = Folder, displayName = relativePath file, localUri = fileUri file,
             size_bytes = fileSize file, initialOffset = Finite 0,
             remoteTarget = joinUploadPath [uploadBasePath, relativePath file],
             monthBucket = [], capturedAtIso = [], overwrite = False\<rparr>) files"

section \<open>The server and the device, as seen by one run\<close>

text \<open>
  The \<^verbatim>\<open>index\<close> property of a batch result, before \<^verbatim>\<open>Number(...)\<close> is applied: absent,
  \<^verbatim>\<open>null\<close>, a boolean, a number, or any other value (a string, an array, an object),
  which is given by the number that \<^verbatim>\<open>Number(...)\<close> makes of it.
\<close>

datatype jsval = JUndefined | JNull | JBool bool | JNumber "rat jsnum" | JOther "rat jsnum"

text \<open>\<^verbatim>\<open>Number(v)\<close>.\<close>

fun to_number :: "jsval \<Rightarrow> rat jsnum" where
  "to_number JUndefined = NaN"
| "to_number JNull = Finite 0"
| "to_number (JBool b) = Finite (if b then 1 else 0)"
| "to_number (JNumber x) = x"
| "to_number (JOther x) = x"

text \<open>
  One entry of the batch response. A string field that is absent is the empty string and
  an absent \<^verbatim>\<open>ok\<close> is false: each default is falsy, as the absent property is. The field
  \<open>item_offset\<close> is the number \<^verbatim>\<open>Number(statusItem?.offset || 0)\<close>. An entry that is not
  an object has no \<^verbatim>\<open>index\<close>.
\<close>

record status_item =
  item_index :: jsval
  item_status :: string
  item_ok :: bool
  item_error_code :: string
  item_offset :: "int jsnum"

text \<open>
  One asset of the media library, as the camera branch reads it: whether
  \<^verbatim>\<open>getAssetInfoAsync\<close> rejects, the file name and local URI it finds (empty when there
  is none), the number \<^verbatim>\<open>Number(localFile.size || 0)\<close>, and the month bucket and ISO time
  that the \<^verbatim>\<open>Date\<close> functions derive from the creation time.
\<close>

record camera_asset =
  asset_id :: string
  asset_info_fails :: bool
  asset_filename :: string
  asset_localUri :: string
  asset_size :: "int jsnum"
  asset_monthBucket :: string
  asset_capturedAtIso :: string

text \<open>
  Replies. A failed reply carries the \<^verbatim>\<open>code\<close> and the \<^verbatim>\<open>message\<close> of its error, empty
  when absent. A successful status reply carries its \<^verbatim>\<open>status\<close> and the number
  \<^verbatim>\<open>Number(data?.offset || 0)\<close>; a successful chunk reply carries that number. A chunk
  request can also throw, when \<^verbatim>\<open>fetch\<close> rejects.
\<close>

datatype batch_reply =
    BatchFailed string
  | BatchOk "status_item list option"

datatype status_reply =
    StatusFailed string string
  | StatusOk string "int jsnum"

datatype chunk_reply =
    ChunkThrows string
  | ChunkFailed string string
  | ChunkOk "int jsnum"

text \<open>An item of a directory listing: its path (empty when absent), whether it has a root id, whether it is a directory.\<close>

record list_item =
  item_path :: string
  item_has_rootId :: bool
  item_isDir :: bool

datatype list_reply =
    ListFailed string
  | ListOk "list_item list"

datatype request =
    BatchStatusReq bool "UploadCandidate list"
  | StatusReq bool UploadCandidate
  | ChunkReq bool UploadCandidate "int jsnum" nat
  | ListReq string nat
  | DeleteReq "string list"

text \<open>
  The run is sequential and yields only at an \<^verbatim>\<open>await\<close>. The state counts the awaits
  completed (\<open>ticks\<close>); the reply to a request is indexed by the count at which it is
  sent. \<open>cancel_at = Some t\<close> says that the user presses cancel during await number \<open>t\<close>,
  so \<^verbatim>\<open>cancelRef.current\<close> reads true once \<open>t\<close> awaits are over and stays true.
  \<open>number_text\<close> is the parameter of \<^const>\<open>numberToString\<close>.
\<close>

record env =
  cancel_at :: "nat option"
  batch_reply_at :: "nat \<Rightarrow> batch_reply"
  status_reply_at :: "nat \<Rightarrow> status_reply"
  chunk_reply_at :: "nat \<Rightarrow> chunk_reply"
  open_error :: "string \<Rightarrow> string option"
  bytes_available :: "nat \<Rightarrow> nat"
  list_reply_at :: "nat \<Rightarrow> list_reply"
  delete_ok_at :: "nat \<Rightarrow> bool"
  local_scan :: "LocalFolderFile list \<times> nat \<times> nat"
  media_permission :: bool
  media_library :: "camera_asset list \<times> camera_asset list list"
  refresh_error :: "string option"
  number_text :: "rat \<Rightarrow> string"

record run_state =
  candidates :: "UploadCandidate list"
  localMirrorTargets :: "string set"
  discovered :: nat
  plannedBytes :: "int jsnum"
  skipped :: nat
  failed :: nat
  uploaded :: nat
  uploadedBytes :: "int jsnum"
  remoteDeleted :: nat
  remoteDeleteFailed :: nat
  requests :: "request list"
  ticks :: nat

definition cancelRef :: "env \<Rightarrow> run_state \<Rightarrow> bool" where
  "cancelRef e s = (case cancel_at e of None \<Rightarrow> False | Some t \<Rightarrow> t < ticks s)"

definition tick :: "run_state \<Rightarrow> run_state" where
  "tick s = s\<lparr>ticks := ticks s + 1\<rparr>"

definition send :: "request \<Rightarrow> run_state \<Rightarrow> run_state" where
  "send r s = tick (s\<lparr>requests := requests s @ [r]\<rparr>)"

text \<open>A thrown error carries its message; the state at the throw is kept beside it.\<close>

type_synonym 'a result = "(string \<times> run_state) + 'a"

section \<open>Upload status resolver\<close>

text \<open>
  The test of \<^verbatim>\<open>normalizeBatchStatusItems\<close> on one entry: the slot it is stored in, if any.
\<close>

definition entry_slot :: "status_item \<Rightarrow> nat \<Rightarrow> nat option" where
  "entry_slot entry expected =
     (let index = to_number (item_index entry)
      in if \<not> isInteger index \<or> js_lt index (Finite 0) \<or> js_ge index (Finite (of_nat expected))
         then None
         else (case index of Finite r \<Rightarrow> Some (nat \<lfloor>r\<rfloor>) | _ \<Rightarrow> None))"

fun store_entries :: "status_item list \<Rightarrow> nat \<Rightarrow> status_item option list \<Rightarrow> status_item option list" where
  "store_entries [] expected byIndex = byIndex"
| "store_entries (entry # rest) expected byIndex =
     (case entry_slot entry expected of
        None \<Rightarrow> store_entries rest expected byIndex
      | Some i \<Rightarrow> store_entries rest expected (byIndex[i := Some entry]))"

definition normalizeBatchStatusItems :: "status_item list option \<Rightarrow> nat \<Rightarrow> status_item option list" where
  "normalizeBatchStatusItems rawItems expected =
     (let byIndex = replicate expected None
      in case rawItems of
           None \<Rightarrow> byIndex
         | Some items \<Rightarrow> store_entries items expected byIndex)"

definition or_else :: "string \<Rightarrow> string \<Rightarrow> string" where
  "or_else a b = (if a \<noteq> [] then a else b)"

definition fetchUploadStatusBatch ::
  "env \<Rightarrow> UploadCandidate list \<Rightarrow> bool \<Rightarrow> run_state \<Rightarrow> (status_item option list \<times> run_state) result" where
  "fetchUploadStatusBatch e cands ow s =
     (if cands = [] then Inr ([], s)
      else (case batch_reply_at e (ticks s) of
              BatchFailed msg \<Rightarrow>
                Inl (or_else msg ''Failed to check upload status'',
                     send (BatchStatusReq ow cands) s)
            | BatchOk items \<Rightarrow>
                Inr (normalizeBatchStatusItems items (length cands),
                     send (BatchStatusReq ow cands) s)))"

definition addReadyCandidate :: "UploadCandidate \<Rightarrow> int jsnum \<Rightarrow> bool \<Rightarrow> run_state \<Rightarrow> run_state" where
  "addReadyCandidate candidate rawOffset ow s =
     (let offset = js_max (Finite 0) (js_min (or_zero rawOffset) (size_bytes candidate));
          c = candidate\<lparr>initialOffset := offset, overwrite := ow\<rparr>
      in s\<lparr>plannedBytes := js_add (plannedBytes s) (js_max (Finite 0) (js_sub (size_bytes c) offset)),
           candidates := candidates s @ [c]\<rparr>)"

datatype rename_result = RenameReady UploadCandidate "int jsnum" | RenameSkipped | RenameFailed

function resolveRenameFrom ::
  "env \<Rightarrow> UploadCandidate \<Rightarrow> nat \<Rightarrow> run_state \<Rightarrow> rename_result \<times> run_state" where
  "resolveRenameFrom e candidate attempt s =
     (if attempt \<le> MAX_RENAME_ATTEMPTS \<and> \<not> cancelRef e s then
        (let renamedCandidate =
               renameCandidateForAttempt (number_text e) candidate (Finite (of_nat attempt));
             statusResult = status_reply_at e (ticks s);
             s' = send (StatusReq False renamedCandidate) s
         in case statusResult of
              StatusFailed code msg \<Rightarrow>
                if code = ''exists'' then resolveRenameFrom e candidate (attempt + 1) s'
                else (RenameFailed, s')
            | StatusOk st off \<Rightarrow>
                (let uploadStatus = or_else st ''ready''; offset = js_max (Finite 0) off
                 in if uploadStatus = ''complete'' \<or> js_ge offset (size_bytes renamedCandidate)
                    then (RenameSkipped, s')
                    else (RenameReady renamedCandidate offset, s')))
      else (RenameFailed, s))"
  by pat_completeness auto
termination
  by (relation "measure (\<lambda>(e, c, attempt, s). Suc MAX_RENAME_ATTEMPTS - attempt)") auto

declare resolveRenameFrom.simps [simp del]

definition resolveRenameCandidate :: "env \<Rightarrow> UploadCandidate \<Rightarrow> run_state \<Rightarrow> rename_result \<times> run_state" where
  "resolveRenameCandidate e candidate s = resolveRenameFrom e candidate 1 s"

text \<open>
  \<^verbatim>\<open>String(statusItem?.status || (statusItem?.ok ? 'ready' : statusItem?.error?.code || 'error'))\<close>
\<close>

definition status_of :: "status_item \<Rightarrow> string" where
  "status_of it =
     or_else (item_status it)
       (if item_ok it then ''ready'' else or_else (item_error_code it) ''error'')"

definition count_skipped :: "run_state \<Rightarrow> run_state" where
  "count_skipped s = s\<lparr>skipped := skipped s + 1\<rparr>"

definition count_failed :: "run_state \<Rightarrow> run_state" where
  "count_failed s = s\<lparr>failed := failed s + 1\<rparr>"

text \<open>The body of the loop of \<^verbatim>\<open>applyStatusBatch\<close> for one candidate and its slot.\<close>

definition classify ::
  "env \<Rightarrow> SyncConflictPolicy \<Rightarrow> UploadCandidate \<Rightarrow> status_item option \<Rightarrow> run_state \<Rightarrow> run_state" where
  "classify e policy candidate statusItem s =
     (case statusItem of
        None \<Rightarrow> count_failed s
      | Some it \<Rightarrow>
          (let uploadStatus = status_of it; offset = js_max (Finite 0) (item_offset it)
           in if uploadStatus = ''ready'' then
                addReadyCandidate candidate offset (policy = PolicyOverwrite) s
              else if uploadStatus = ''complete'' \<or> js_ge offset (size_bytes candidate)
              then count_skipped s
              else if uploadStatus = ''exists'' then
                (if policy = PolicySkip then count_skipped s
                 else if policy = PolicyRename then
                   (case resolveRenameCandidate e candidate s of
                      (RenameReady c off, s') \<Rightarrow> addReadyCandidate c off False s'
                    | (RenameSkipped, s') \<Rightarrow> count_skipped s'
                    | (RenameFailed, s') \<Rightarrow> count_failed s')
                 else count_failed s)
              else count_failed s))"

fun status_loop ::
  "env \<Rightarrow> SyncConflictPolicy \<Rightarrow> (UploadCandidate \<times> status_item option) list \<Rightarrow> run_state \<Rightarrow> run_state" where
  "status_loop e policy [] s = s"
| "status_loop e policy ((candidate, statusItem) # rest) s =
     (if cancelRef e s then s
      else status_loop e policy rest (classify e policy candidate statusItem s))"

definition applyStatusBatch ::
  "env \<Rightarrow> SyncConflictPolicy \<Rightarrow> UploadCandidate list \<Rightarrow> run_state \<Rightarrow> run_state result" where
  "applyStatusBatch e policy batchCandidates s =
     (if batchCandidates = [] then Inr s
      else (case fetchUploadStatusBatch e batchCandidates (policy = PolicyOverwrite) s of
              Inl err \<Rightarrow> Inl err
            | Inr (statusItems, s') \<Rightarrow>
                Inr (status_loop e policy (zip batchCandidates statusItems) s')))"

section \<open>Chunked upload executor\<close>

text \<open>
  \<^verbatim>\<open>handle.readBytes(n)\<close> returns the next \<open>n\<close> bytes of the file, or the bytes that are left
  when there are fewer; only the length of the chunk matters here. A count that is not
  finite gives no bytes.
\<close>

definition readBytes :: "env \<Rightarrow> run_state \<Rightarrow> int jsnum \<Rightarrow> nat" where
  "readBytes e s n =
     (case n of Finite k \<Rightarrow> min (nat k) (bytes_available e (ticks s)) | _ \<Rightarrow> 0)"

definition add_uploaded_bytes :: "int jsnum \<Rightarrow> run_state \<Rightarrow> run_state" where
  "add_uploaded_bytes n s = s\<lparr>uploadedBytes := js_add (uploadedBytes s) n\<rparr>"

text \<open>The recovery from an \<^verbatim>\<open>offset_mismatch\<close>: an error to throw, or the next local offset.\<close>

definition recover_offset ::
  "env \<Rightarrow> UploadCandidate \<Rightarrow> int jsnum \<Rightarrow> run_state \<Rightarrow> (int jsnum \<times> run_state) result" where
  "recover_offset e candidate offset s =
     (let statusResult = status_reply_at e (ticks s);
          s' = send (StatusReq (overwrite candidate) candidate) s
      in case statusResult of
           StatusFailed code msg \<Rightarrow> Inl (or_else msg ''Failed to recover upload offset'', s')
         | StatusOk st off \<Rightarrow>
             (let serverOffset = js_max (Finite 0) off
              in if js_le serverOffset offset
                 then Inl (''Upload offset mismatch could not be resolved'', s')
                 else Inr (serverOffset, add_uploaded_bytes (js_sub serverOffset offset) s')))"

text \<open>The body of the chunk loop: an error to throw, or the next local offset.\<close>

definition upload_step ::
  "env \<Rightarrow> int jsnum \<Rightarrow> UploadCandidate \<Rightarrow> int jsnum \<Rightarrow> run_state \<Rightarrow> (int jsnum \<times> run_state) result" where
  "upload_step e chunkBytes candidate offset s =
     (let nextChunkBytes = js_min chunkBytes (js_sub (size_bytes candidate) offset);
          chunk_length = readBytes e s nextChunkBytes
      in if chunk_length = 0 then Inl (''Failed to read file chunk'', s)
         else
           (let chunkResult = chunk_reply_at e (ticks s);
                s' = send (ChunkReq (overwrite candidate) candidate offset chunk_length) s
            in case chunkResult of
                 ChunkThrows msg \<Rightarrow> Inl (msg, s')
               | ChunkFailed code msg \<Rightarrow>
                   if code = ''offset_mismatch'' then recover_offset e candidate offset s'
                   else Inl (or_else msg ''Chunk upload failed'', s')
               | ChunkOk reported \<Rightarrow>
                   (let nextOffset = js_max (js_add offset (Finite (int chunk_length))) reported;
                        advanced = js_max (Finite 0) (js_sub nextOffset offset)
                    in Inr (nextOffset, add_uploaded_bytes advanced s'))))"

text \<open>
  The chunk loop. It need not end (a size that is not finite, for one), so its result is
  optional: \<open>None\<close> is the loop that runs forever.
\<close>

partial_function (option) upload_loop ::
  "env \<Rightarrow> int jsnum \<Rightarrow> UploadCandidate \<Rightarrow> int jsnum \<Rightarrow> run_state
   \<Rightarrow> (int jsnum \<times> run_state) result option" where
  "upload_loop e chunkBytes candidate offset s =
     (if js_lt offset (size_bytes candidate) \<and> \<not> cancelRef e s then
        (case upload_step e chunkBytes candidate offset s of
           Inl err \<Rightarrow> Some (Inl err)
         | Inr next \<Rightarrow> upload_loop e chunkBytes candidate (fst next) (snd next))
      else Some (Inr (offset, s)))"

declare upload_loop.simps [code]

text \<open>One iteration of the loop over the planned candidates, \<^verbatim>\<open>try\<close>/\<^verbatim>\<open>finally\<close> included.\<close>

definition upload_candidate ::
  "env \<Rightarrow> int jsnum \<Rightarrow> UploadCandidate \<Rightarrow> run_state \<Rightarrow> run_state result option" where
  "upload_candidate e chunkBytes candidate s =
     (let offset = js_max (Finite 0) (js_min (initialOffset candidate) (size_bytes candidate))
      in case open_error e (localUri candidate) of
           Some msg \<Rightarrow> Some (Inl (msg, s))
         | None \<Rightarrow>
             (case upload_loop e chunkBytes candidate offset s of
                None \<Rightarrow> None
              | Some (Inl err) \<Rightarrow> Some (Inl err)
              | Some (Inr (offset', s')) \<Rightarrow>
                  Some (Inr (if js_ge offset' (size_bytes candidate)
                             then s'\<lparr>uploaded := uploaded s' + 1\<rparr>
                             else s'))))"

fun upload_all ::
  "env \<Rightarrow> int jsnum \<Rightarrow> UploadCandidate list \<Rightarrow> run_state \<Rightarrow> run_state result option" where
  "upload_all e chunkBytes [] s = Some (Inr s)"
| "upload_all e chunkBytes (candidate # rest) s =
     (if cancelRef e s then Some (Inr s)
      else (case upload_candidate e chunkBytes candidate s of
              None \<Rightarrow> None
            | Some (Inl err) \<Rightarrow> Some (Inl err)
            | Some (Inr s') \<Rightarrow> upload_all e chunkBytes rest s'))"

section \<open>Mirror pruner\<close>

text \<open>The set of remote files is a list without repetition, in insertion order.\<close>

definition set_add :: "string \<Rightarrow> string list \<Rightarrow> string list" where
  "set_add p files = (if p \<in> set files then files else files @ [p])"

text \<open>The loop over the items of one page: the directories go to the queue, the files to the set.\<close>

fun collect_items :: "list_item list \<Rightarrow> string list \<times> string list \<Rightarrow> string list \<times> string list" where
  "collect_items [] qf = qf"
| "collect_items (item # rest) (queue, files) =
     (if item_path item = [] \<or> \<not> item_has_rootId item then collect_items rest (queue, files)
      else if item_isDir item then collect_items rest (queue @ [item_path item], files)
      else collect_items rest (queue, set_add (item_path item) files))"

text \<open>
  \<^verbatim>\<open>fetchRemoteFilesForMirror\<close>. The two loops are one function: the third argument is
  \<open>None\<close> at the test of the outer loop and holds the current path and offset in the
  inner one. The server can list without end, so the result is optional.
\<close>

partial_function (option) list_loop ::
  "env \<Rightarrow> string list \<Rightarrow> (string \<times> nat) option \<Rightarrow> string list \<Rightarrow> run_state
   \<Rightarrow> (string list \<times> run_state) result option" where
  "list_loop e queue inner remoteFiles s =
     (case inner of
        None \<Rightarrow>
          if queue \<noteq> [] \<and> \<not> cancelRef e s
          then list_loop e (butlast queue) (Some (last queue, 0)) remoteFiles s
          else Some (Inr (remoteFiles, s))
      | Some current \<Rightarrow>
          if \<not> cancelRef e s then
            (case list_reply_at e (ticks s) of
               ListFailed msg \<Rightarrow>
                 Some (Inl (or_else msg ''Failed to list remote files for mirror mode'',
                            send (ListReq (fst current) (snd current)) s))
             | ListOk items \<Rightarrow>
                 if length items < LIST_PAGE_SIZE
                 then list_loop e (fst (collect_items items (queue, remoteFiles))) None
                        (snd (collect_items items (queue, remoteFiles)))
                        (send (ListReq (fst current) (snd current)) s)
                 else list_loop e (fst (collect_items items (queue, remoteFiles)))
                        (Some (fst current, snd current + length items))
                        (snd (collect_items items (queue, remoteFiles)))
                        (send (ListReq (fst current) (snd current)) s))
          else list_loop e queue None remoteFiles s)"

declare list_loop.simps [code]

definition fetchRemoteFilesForMirror ::
  "env \<Rightarrow> string \<Rightarrow> run_state \<Rightarrow> (string list \<times> run_state) result option" where
  "fetchRemoteFilesForMirror e basePath s = list_loop e [basePath] None [] s"

definition deletion_set :: "string list \<Rightarrow> string set \<Rightarrow> string list" where
  "deletion_set remoteFiles targets = filter (\<lambda>remotePath. remotePath \<notin> targets) remoteFiles"

function delete_loop :: "env \<Rightarrow> string list \<Rightarrow> nat \<Rightarrow> run_state \<Rightarrow> run_state" where
  "delete_loop e toDelete index s =
     (if index < length toDelete \<and> \<not> cancelRef e s then
        (let batch = take DELETE_BATCH_SIZE (drop index toDelete);
             deleteOk = delete_ok_at e (ticks s);
             s' = send (DeleteReq batch) s
         in delete_loop e toDelete (index + DELETE_BATCH_SIZE)
              (if deleteOk then s'\<lparr>remoteDeleted := remoteDeleted s' + length batch\<rparr>
               else s'\<lparr>remoteDeleteFailed := remoteDeleteFailed s' + length batch\<rparr>))
      else s)"
  by pat_completeness auto
termination
  by (relation "measure (\<lambda>(e, toDelete, index, s). length toDelete - index)")
     (auto simp: DELETE_BATCH_SIZE_def)

declare delete_loop.simps [simp del]

definition mirror_phase :: "env \<Rightarrow> string \<Rightarrow> run_state \<Rightarrow> run_state result option" where
  "mirror_phase e uploadPathNormalized s =
     (case fetchRemoteFilesForMirror e uploadPathNormalized s of
        None \<Rightarrow> None
      | Some (Inl err) \<Rightarrow> Some (Inl err)
      | Some (Inr (remoteFiles, s')) \<Rightarrow>
          Some (Inr (delete_loop e (deletion_set remoteFiles (localMirrorTargets s')) 0 s')))"

section \<open>Sync orchestrator\<close>

text \<open>
  The settings and the server capabilities that \<^verbatim>\<open>runSync\<close> reads. \<open>serverChunkBytes\<close> is
  the number \<^verbatim>\<open>Number(info?.capabilities?.upload?.chunkBytes || 0)\<close>.
\<close>

record sync_settings =
  syncRunning :: bool
  rootSelected :: bool
  uploadEnabled :: bool
  syncSource :: SyncSource
  localFolderUri :: string
  mirrorRemote :: bool
  conflictPolicy :: SyncConflictPolicy
  syncPath :: string
  serverChunkBytes :: "int jsnum"

record run_report =
  stage :: SyncStage
  error :: string
  final :: run_state

datatype run_outcome = Ignored | Reported run_report

definition chunkBytes :: "sync_settings \<Rightarrow> int jsnum" where
  "chunkBytes cfg =
     (let serverChunk = serverChunkBytes cfg
      in if \<not> isFinite serverChunk \<or> js_le serverChunk (Finite 0) then Finite MAX_CHUNK_BYTES
         else js_max (Finite MIN_CHUNK_BYTES) (js_min (Finite MAX_CHUNK_BYTES) serverChunk))"

definition effectiveConflictPolicy :: "sync_settings \<Rightarrow> SyncConflictPolicy" where
  "effectiveConflictPolicy cfg =
     (if syncSource cfg = SourceFolder \<and> mirrorRemote cfg \<and> conflictPolicy cfg = PolicyRename
      then PolicyOverwrite
      else conflictPolicy cfg)"

definition overwriteUploads :: "sync_settings \<Rightarrow> bool" where
  "overwriteUploads cfg \<longleftrightarrow> effectiveConflictPolicy cfg = PolicyOverwrite"

definition initial_state :: run_state where
  "initial_state =
     \<lparr>candidates = [], localMirrorTargets = {}, discovered = 0, plannedBytes = Finite 0,
      skipped = 0, failed = 0, uploaded = 0, uploadedBytes = Finite 0, remoteDeleted = 0,
      remoteDeleteFailed = 0, requests = [], ticks = 0\<rparr>"

definition toErrorMessage :: "string \<Rightarrow> string \<Rightarrow> string" where
  "toErrorMessage message fallback = or_else (trim message) fallback"

subsection \<open>Planning, folder source\<close>

text \<open>The loop over \<^verbatim>\<open>folderCandidates\<close>; it returns the candidates still pending.\<close>

fun plan_folder ::
  "env \<Rightarrow> SyncConflictPolicy \<Rightarrow> UploadCandidate list \<Rightarrow> UploadCandidate list \<Rightarrow> run_state
   \<Rightarrow> (UploadCandidate list \<times> run_state) result" where
  "plan_folder e policy [] pending s = Inr (pending, s)"
| "plan_folder e policy (candidate # rest) pending s =
     (if cancelRef e s then Inr (pending, s)
      else
        (let s1 = s\<lparr>localMirrorTargets := insert (remoteTarget candidate) (localMirrorTargets s)\<rparr>;
             pending1 = pending @ [candidate]
         in if length pending1 \<ge> STATUS_BATCH_SIZE then
              (case applyStatusBatch e policy pending1 s1 of
                 Inl err \<Rightarrow> Inl err
               | Inr s2 \<Rightarrow> plan_folder e policy rest [] s2)
            else plan_folder e policy rest pending1 s1))"

text \<open>The batch of the candidates left pending when the loop ends.\<close>

definition flush_pending ::
  "env \<Rightarrow> SyncConflictPolicy \<Rightarrow> UploadCandidate list \<times> run_state \<Rightarrow> run_state result" where
  "flush_pending e policy ps =
     (case ps of (pending, s) \<Rightarrow>
        if \<not> cancelRef e s \<and> pending \<noteq> [] then applyStatusBatch e policy pending s
        else Inr s)"

text \<open>
  The folder branch. \<open>local_scan\<close> is what \<^verbatim>\<open>collectLocalFolderFiles\<close> returns: the files,
  and the counts of discovered and failed entries.
\<close>

definition plan_folder_source ::
  "env \<Rightarrow> SyncConflictPolicy \<Rightarrow> string \<Rightarrow> run_state \<Rightarrow> run_state result" where
  "plan_folder_source e policy uploadPathNormalized s =
     (case local_scan e of (files, scannedDiscovered, scannedFailed) \<Rightarrow>
        (let s1 = (tick s)\<lparr>discovered := scannedDiscovered, failed := failed s + scannedFailed\<rparr>;
             folderCandidates = buildFolderCandidates files uploadPathNormalized
         in case plan_folder e policy folderCandidates [] s1 of
              Inl err \<Rightarrow> Inl err
            | Inr ps \<Rightarrow> flush_pending e policy ps))"

subsection \<open>Planning, camera source\<close>

definition camera_candidate :: "camera_asset \<Rightarrow> UploadCandidate" where
  "camera_candidate a =
     \<lparr>kind = Camera, displayName = sanitizeFileName (asset_filename a) (asset_id a),
      localUri = asset_localUri a, size_bytes = asset_size a, initialOffset = Finite 0,
      remoteTarget = [], monthBucket = asset_monthBucket a,
      capturedAtIso = asset_capturedAtIso a, overwrite = False\<rparr>"

text \<open>The loop over the assets of one page.\<close>

fun plan_assets ::
  "env \<Rightarrow> SyncConflictPolicy \<Rightarrow> camera_asset list \<Rightarrow> UploadCandidate list \<Rightarrow> run_state
   \<Rightarrow> (UploadCandidate list \<times> run_state) result" where
  "plan_assets e policy [] pending s = Inr (pending, s)"
| "plan_assets e policy (asset # rest) pending s =
     (if cancelRef e s then Inr (pending, s)
      else
        (let s1 = tick (s\<lparr>discovered := discovered s + 1\<rparr>)
         in if asset_info_fails asset then plan_assets e policy rest pending (count_failed s1)
            else if asset_localUri asset = [] then plan_assets e policy rest pending (count_failed s1)
            else if \<not> isFinite (asset_size asset) \<or> js_lt (asset_size asset) (Finite 0)
            then plan_assets e policy rest pending (count_failed s1)
            else
              (let pending1 = pending @ [camera_candidate asset]
               in if length pending1 \<ge> STATUS_BATCH_SIZE then
                    (case applyStatusBatch e policy pending1 s1 of
                       Inl err \<Rightarrow> Inl err
                     | Inr s2 \<Rightarrow> plan_assets e policy rest [] s2)
                  else plan_assets e policy rest pending1 s1)))"

text \<open>The loop over the pages: the last argument but two holds the pages after the current one.\<close>

fun plan_pages ::
  "env \<Rightarrow> SyncConflictPolicy \<Rightarrow> camera_asset list \<Rightarrow> camera_asset list list
   \<Rightarrow> UploadCandidate list \<Rightarrow> run_state \<Rightarrow> (UploadCandidate list \<times> run_state) result" where
  "plan_pages e policy page [] pending s =
     (if cancelRef e s then Inr (pending, s)
      else plan_assets e policy page pending (tick s))"
| "plan_pages e policy page (nextPage # later) pending s =
     (if cancelRef e s then Inr (pending, s)
      else (case plan_assets e policy page pending (tick s) of
              Inl err \<Rightarrow> Inl err
            | Inr (pending', s') \<Rightarrow> plan_pages e policy nextPage later pending' s'))"

text \<open>\<open>Inr None\<close>: the permission was refused and the run returned.\<close>

definition plan_camera_source ::
  "env \<Rightarrow> SyncConflictPolicy \<Rightarrow> run_state \<Rightarrow> run_state option result" where
  "plan_camera_source e policy s =
     (let s1 = tick s
      in if \<not> media_permission e then Inr None
         else (case media_library e of (page, later) \<Rightarrow>
                 (case plan_pages e policy page later [] s1 of
                    Inl err \<Rightarrow> Inl err
                  | Inr ps \<Rightarrow>
                      (case flush_pending e policy ps of
                         Inl err \<Rightarrow> Inl err
                       | Inr s2 \<Rightarrow> Inr (Some s2)))))"

subsection \<open>The run\<close>

definition report :: "SyncStage \<Rightarrow> string \<Rightarrow> run_state \<Rightarrow> run_report" where
  "report st err s = \<lparr>stage = st, error = err, final = s\<rparr>"

text \<open>The last progress update of the \<^verbatim>\<open>try\<close> block, and \<^verbatim>\<open>await refresh()\<close> after it.\<close>

definition finish :: "env \<Rightarrow> run_state \<Rightarrow> run_report result" where
  "finish e s =
     (let r = (if cancelRef e s then report Cancelled [] s else report Done [] s)
      in case refresh_error e of
           None \<Rightarrow> Inr r
         | Some msg \<Rightarrow> Inl (msg, s))"

text \<open>
  From the end of planning on: the upload of the planned candidates, then the mirror pass
  for a folder source in mirror mode.
\<close>

definition upload_and_mirror ::
  "env \<Rightarrow> sync_settings \<Rightarrow> run_state \<Rightarrow> run_report result option" where
  "upload_and_mirror e cfg s =
     (if cancelRef e s then Some (Inr (report Cancelled [] s))
      else
        (case upload_all e (chunkBytes cfg) (candidates s) s of
           None \<Rightarrow> None
         | Some (Inl err) \<Rightarrow> Some (Inl err)
         | Some (Inr s1) \<Rightarrow>
             if \<not> cancelRef e s1 \<and> syncSource cfg = SourceFolder \<and> mirrorRemote cfg then
               (case mirror_phase e (normalizeUploadPath (syncPath cfg)) s1 of
                  None \<Rightarrow> None
                | Some (Inl err) \<Rightarrow> Some (Inl err)
                | Some (Inr s2) \<Rightarrow> Some (finish e s2))
             else Some (finish e s1)))"

definition planning :: "env \<Rightarrow> sync_settings \<Rightarrow> run_state \<Rightarrow> run_state option result" where
  "planning e cfg s =
     (if syncSource cfg = SourceCamera then plan_camera_source e (effectiveConflictPolicy cfg) s
      else (case plan_folder_source e (effectiveConflictPolicy cfg)
                   (normalizeUploadPath (syncPath cfg)) s of
              Inl err \<Rightarrow> Inl err
            | Inr s' \<Rightarrow> Inr (Some s')))"

text \<open>The \<^verbatim>\<open>catch\<close> of \<^verbatim>\<open>runSync\<close>.\<close>

definition caught :: "string \<times> run_state \<Rightarrow> run_report" where
  "caught err = (case err of (message, s) \<Rightarrow> report Error (toErrorMessage message ''Sync failed.'') s)"

text \<open>
  \<^verbatim>\<open>runSync\<close>. \<open>None\<close> is the run that never returns; \<open>Ignored\<close> is the call made while a
  run is in progress, which does nothing. The report gives the stage and the error of the
  last progress update, and the variables of the run at that point.
\<close>

definition runSync :: "env \<Rightarrow> sync_settings \<Rightarrow> run_outcome option" where
  "runSync e cfg =
     (if syncRunning cfg then Some Ignored
      else if \<not> rootSelected cfg then
        Some (Reported (report Error ''Choose a destination root before syncing.'' initial_state))
      else if \<not> uploadEnabled cfg then
        Some (Reported (report Error ''Uploads are disabled on the server.'' initial_state))
      else if syncSource cfg = SourceFolder \<and> localFolderUri cfg = [] then
        Some (Reported (report Error ''Pick a local folder to sync first.'' initial_state))
      else
        (case planning e cfg initial_state of
           Inl err \<Rightarrow> Some (Reported (caught err))
         | Inr None \<Rightarrow>
             Some (Reported
               (report Error ''Media library permission is required for camera sync.''
                  initial_state))
         | Inr (Some s) \<Rightarrow>
             (case upload_and_mirror e cfg s of
                None \<Rightarrow> None
              | Some (Inl err) \<Rightarrow> Some (Reported (caught err))
              | Some (Inr r) \<Rightarrow> Some (Reported r))))"

section \<open>Example inputs\<close>

text \<open>
  A folder candidate, a batch result, a server with constant replies on a device with two
  files, and settings. In the examples the text of a number that is not a small integer
  is not needed; it is a question mark.
\<close>

definition example_number_text :: "rat \<Rightarrow> string" where
  "example_number_text r = ''?''"




definition example_settings :: "SyncConflictPolicy \<Rightarrow> bool \<Rightarrow> sync_settings" where
  "example_settings policy mirror =
     \<lparr>syncRunning = False, rootSelected = True, uploadEnabled = True,
      syncSource = SourceFolder, localFolderUri = ''file:///'', mirrorRemote = mirror,
      conflictPolicy = policy, syncPath = ''/up/'', serverChunkBytes = Finite 4\<rparr>"




section \<open>The amended claims, in their own words\<close>

text \<open>
  What position \<open>i\<close> of a trimmed name contributes to the sanitised name: a character
  outside the class stays; a character of the class becomes an underscore when it starts
  a run (it is the first character, or the character before it is outside the class) and
  disappears when it continues one.
\<close>

definition spec_at :: "string \<Rightarrow> nat \<Rightarrow> string" where
  "spec_at t i =
     (if \<not> unsafe_char (t ! i) then [t ! i]
      else if i = 0 \<or> \<not> unsafe_char (t ! (i - 1)) then ''_''
      else [])"

definition collapse_spec :: "string \<Rightarrow> string" where
  "collapse_spec t = concat (map (spec_at t) [0..<length t])"

text \<open>The same scan from left to right, with the state it needs: whether a run is going on.\<close>

fun scan_runs :: "bool \<Rightarrow> string \<Rightarrow> string" where
  "scan_runs in_run [] = []"
| "scan_runs in_run (c # cs) =
     (if unsafe_char c then (if in_run then [] else ''_'') @ scan_runs True cs
      else c # scan_runs False cs)"


section \<open>Properties of the path and name utilities\<close>


lemma split_on_no_sep: "w \<in> set (split_on sep s) \<Longrightarrow> sep \<notin> set w"
  by (induction s arbitrary: w) (auto split: if_splits list.splits)

lemma split_on_plain: "sep \<notin> set x \<Longrightarrow> split_on sep x = [x]"
  by (induction x) auto

lemma split_on_append: "sep \<notin> set x \<Longrightarrow> split_on sep (x @ sep # rest) = x # split_on sep rest"
  by (induction x) (auto split: list.splits)

lemma split_on_join:
  "segs \<noteq> [] \<Longrightarrow> \<forall>w\<in>set segs. sep \<notin> set w \<Longrightarrow> split_on sep (join_with [sep] segs) = segs"
proof (induction segs rule: induct_list012)
  case 1 then show ?case by simp
next
  case (2 x) then show ?case by (simp add: split_on_plain)
next
  case (3 x y ys)
  then show ?case by (simp add: split_on_append)
qed

lemma part_segments_eq:
  "part_segments p = filter keep_segment (split_on slash (normalizeUploadPath p))"
  by (simp add: part_segments_def keep_segment_def Let_def)

lemma joinUploadPath_segments:
  "joinUploadPath parts =
     join_with ''/'' (filter keep_segment (concat (map (\<lambda>p. split_on slash (normalizeUploadPath p)) parts)))"
proof -
  have "concat (map part_segments parts) =
        filter keep_segment (concat (map (\<lambda>p. split_on slash (normalizeUploadPath p)) parts))"
    by (induction parts) (simp_all add: part_segments_eq)
  then show ?thesis by (simp add: joinUploadPath_def)
qed

lemma lastIndexOf_absent: "c \<notin> set s \<Longrightarrow> lastIndexOf c s = -1"
proof -
  assume "c \<notin> set s"
  then have "dropWhile (\<lambda>x. x \<noteq> c) (rev s) = []"
    by auto
  then show ?thesis unfolding lastIndexOf_def by (simp only: list.case)
qed

lemma lastIndexOf_last: "c \<notin> set e \<Longrightarrow> lastIndexOf c (stem @ c # e) = int (length stem)"
proof -
  assume a: "c \<notin> set e"
  then have "dropWhile (\<lambda>x. x \<noteq> c) (rev e @ c # rev stem) = c # rev stem"
    by (auto simp: dropWhile_append)
  then show ?thesis by (simp add: lastIndexOf_def)
qed

lemma replace_unsafe_runs_safe: "\<forall>c\<in>set xs. \<not> unsafe_char c \<Longrightarrow> replace_unsafe_runs xs = xs"
  by (induction xs) auto

lemma replace_unsafe_runs_Nil_iff: "replace_unsafe_runs xs = [] \<longleftrightarrow> xs = []"
  by (cases xs) auto

lemma underscore_safe: "\<not> unsafe_char CHR ''_''"
  by (simp add: unsafe_char_def backslash_def slash_def)

lemma replace_unsafe_runs_clean: "\<forall>c\<in>set (replace_unsafe_runs xs). \<not> unsafe_char c"
proof (induction xs rule: replace_unsafe_runs.induct)
  case 1
  show ?case by simp
next
  case (2 x xs)
  show ?case
  proof (cases "unsafe_char x")
    case True
    with 2(1) show ?thesis by (simp add: underscore_safe)
  next
    case False
    with 2(2) show ?thesis by simp
  qed
qed

lemma splitNameAndExt_ext:
  assumes "stem \<noteq> []" "CHR ''.'' \<notin> set e"
  shows "splitNameAndExt (stem @ ''.'' @ e) = (stem, ''.'' @ e)"
  using assms lastIndexOf_last [of "CHR ''.''" e stem]
  by (simp add: splitNameAndExt_def Let_def)

lemma splitNameAndExt_no_ext:
  assumes "CHR ''.'' \<notin> set (tl f)"
  shows "splitNameAndExt f = (f, [])"
proof (cases f)
  case Nil
  then show ?thesis by (simp add: splitNameAndExt_def lastIndexOf_def)
next
  case (Cons c cs)
  show ?thesis
  proof (cases "c = CHR ''.''")
    case True
    with Cons assms lastIndexOf_last [of "CHR ''.''" cs "[]"] show ?thesis
      by (simp add: splitNameAndExt_def Let_def)
  next
    case False
    with Cons assms have "CHR ''.'' \<notin> set f" by simp
    then show ?thesis by (simp add: splitNameAndExt_def Let_def lastIndexOf_absent)
  qed
qed


lemma replace_unsafe_runs_run_first:
  assumes "run \<noteq> []" "\<forall>c\<in>set run. unsafe_char c" "ys = [] \<or> \<not> unsafe_char (hd ys)"
  shows "replace_unsafe_runs (run @ ys) = CHR ''_'' # replace_unsafe_runs ys"
proof -
  from assms(1) obtain r rs where run: "run = r # rs" by (cases run) auto
  have "dropWhile unsafe_char (rs @ ys) = dropWhile unsafe_char ys"
    using assms(2) run by (simp add: dropWhile_append)
  also have "\<dots> = ys"
    using assms(3) by (cases ys) auto
  finally show ?thesis using assms(2) run by simp
qed

lemma replace_unsafe_runs_run:
  assumes "run \<noteq> []" "\<forall>c\<in>set run. unsafe_char c" "ys = [] \<or> \<not> unsafe_char (hd ys)"
  shows "xs = [] \<or> \<not> unsafe_char (last xs) \<Longrightarrow>
         replace_unsafe_runs (xs @ run @ ys) = replace_unsafe_runs xs @ ''_'' @ replace_unsafe_runs ys"
proof (induction xs rule: replace_unsafe_runs.induct)
  case 1
  show ?case using replace_unsafe_runs_run_first [OF assms] by simp
next
  case (2 x xs)
  show ?case
  proof (cases "unsafe_char x")
    case True
    with 2(3) have ne: "xs \<noteq> []" by auto
    with 2(3) have lst: "\<not> unsafe_char (last xs)" by simp
    with ne have ex: "\<exists>c\<in>set xs. \<not> unsafe_char c" by (meson last_in_set)
    then obtain c where "c \<in> set xs" "\<not> unsafe_char c" by blast
    then have dw: "dropWhile unsafe_char (xs @ run @ ys) = dropWhile unsafe_char xs @ run @ ys"
      by (rule dropWhile_append1)
    from ex have dne: "dropWhile unsafe_char xs \<noteq> []" by (simp add: dropWhile_eq_Nil_conv)
    have "last (dropWhile unsafe_char xs) = last xs"
      using dne by (metis last_appendR takeWhile_dropWhile_id)
    with lst dne 2(1) [OF True] dw True show ?thesis by simp
  next
    case False
    with 2(3) have "xs = [] \<or> \<not> unsafe_char (last xs)" by (cases xs) auto
    with 2(2) [OF False] False show ?thesis by simp
  qed
qed

lemma sanitize_counter_1: "sanitizeFileName ''a//b'' ''0'' = ''a_b''"
  by code_simp

lemma sanitize_counter_2: "sanitizeFileName [] ''a/b'' = ''a/b.jpg''"
  by code_simp

lemma sanitize_counter_3: "map (\<lambda>c. if unsafe_char c then CHR ''_'' else c) ''a//b'' = ''a__b''"
  by code_simp

lemma sanitize_counter_4: "unsafe_char CHR ''/''"
  by code_simp

lemma trim_plain: "name \<noteq> [] \<Longrightarrow> \<not> is_js_space (hd name) \<Longrightarrow> \<not> is_js_space (last name) \<Longrightarrow> trim name = name"
proof -
  assume a: "name \<noteq> []" "\<not> is_js_space (hd name)" "\<not> is_js_space (last name)"
  then have "dropWhile is_js_space name = name" by (cases name) auto
  moreover from a have "dropWhile is_js_space (rev name) = rev name"
    by (cases "rev name") (auto simp: hd_rev)
  ultimately show ?thesis by (simp add: trim_def strip_leading_def strip_trailing_def)
qed


subsection \<open>The sanitiser and its description by positions\<close>

lemma scan_runs_in_run:
  "scan_runs True s = scan_runs False (dropWhile unsafe_char s)"
proof (induction s)
  case Nil
  show ?case by simp
next
  case (Cons c cs)
  show ?case
  proof (cases "unsafe_char c")
    case True
    with Cons show ?thesis by simp
  next
    case False
    then show ?thesis by simp
  qed
qed

lemma replace_unsafe_runs_scan: "replace_unsafe_runs s = scan_runs False s"
proof (induction s rule: replace_unsafe_runs.induct)
  case 1
  show ?case by simp
next
  case (2 c cs)
  show ?case
  proof (cases "unsafe_char c")
    case True
    with 2(1) show ?thesis by (simp add: scan_runs_in_run)
  next
    case False
    with 2(2) show ?thesis by simp
  qed
qed

lemma upt_Suc_shift: "[0..<Suc n] = 0 # map Suc [0..<n]"
  by (metis map_Suc_upt upt_conv_Cons zero_less_Suc)

lemma spec_at_shift: "spec_at (p # t) (Suc (Suc i)) = spec_at t (Suc i)"
  by (simp add: spec_at_def)

lemma spec_at_after:
  "concat (map (\<lambda>i. spec_at (p # t) (Suc i)) [0..<length t]) = scan_runs (unsafe_char p) t"
proof (induction t arbitrary: p)
  case Nil
  show ?case by simp
next
  case (Cons c cs)
  have "concat (map (\<lambda>i. spec_at (p # c # cs) (Suc i)) [0..<length (c # cs)])
        = spec_at (p # c # cs) (Suc 0)
          @ concat (map (\<lambda>i. spec_at (p # c # cs) (Suc (Suc i))) [0..<length cs])"
    by (simp only: length_Cons upt_Suc_shift list.map concat.simps map_map comp_def)
  also have "\<dots> = spec_at (p # c # cs) (Suc 0)
          @ concat (map (\<lambda>i. spec_at (c # cs) (Suc i)) [0..<length cs])"
    by (simp only: spec_at_shift)
  also have "\<dots> = spec_at (p # c # cs) (Suc 0) @ scan_runs (unsafe_char c) cs"
    by (simp only: Cons)
  also have "\<dots> = scan_runs (unsafe_char p) (c # cs)"
    by (simp add: spec_at_def)
  finally show ?case .
qed

lemma collapse_spec_scan: "collapse_spec t = scan_runs False t"
proof (cases t)
  case Nil
  then show ?thesis by (simp add: collapse_spec_def)
next
  case (Cons c cs)
  have "collapse_spec (c # cs)
        = spec_at (c # cs) 0 @ concat (map (\<lambda>i. spec_at (c # cs) (Suc i)) [0..<length cs])"
    unfolding collapse_spec_def
    by (simp only: length_Cons upt_Suc_shift list.map concat.simps map_map comp_def)
  also have "\<dots> = spec_at (c # cs) 0 @ scan_runs (unsafe_char c) cs"
    by (simp only: spec_at_after)
  also have "\<dots> = scan_runs False (c # cs)"
    by (simp add: spec_at_def)
  finally show ?thesis using Cons by simp
qed

lemma replace_unsafe_runs_spec: "replace_unsafe_runs t = collapse_spec t"
  by (simp add: replace_unsafe_runs_scan collapse_spec_scan)

subsection \<open>Trimming\<close>

lemma strip_trailing_decomp: "s = strip_trailing p s @ rev (takeWhile p (rev s))"
proof -
  have "rev (takeWhile p (rev s) @ dropWhile p (rev s)) = s"
    by (simp only: takeWhile_dropWhile_id rev_rev_ident)
  then show ?thesis by (simp only: strip_trailing_def rev_append)
qed

lemma strip_trailing_last: "strip_trailing p s \<noteq> [] \<Longrightarrow> \<not> p (last (strip_trailing p s))"
proof -
  assume ne: "strip_trailing p s \<noteq> []"
  then have "dropWhile p (rev s) \<noteq> []" by (simp add: strip_trailing_def)
  then have "\<not> p (hd (dropWhile p (rev s)))" by (rule hd_dropWhile)
  with ne show ?thesis by (simp add: strip_trailing_def last_rev)
qed

lemma strip_trailing_hd: "strip_trailing p s \<noteq> [] \<Longrightarrow> hd (strip_trailing p s) = hd s"
  using strip_trailing_decomp [of s p] by (metis hd_append2)


text \<open>\<^const>\<open>trim\<close> removes white space at both ends and nothing else.\<close>

lemma trim_decomp:
  "name = takeWhile is_js_space name @ trim name
          @ rev (takeWhile is_js_space (rev (dropWhile is_js_space name)))"
proof -
  have "dropWhile is_js_space name
        = trim name @ rev (takeWhile is_js_space (rev (dropWhile is_js_space name)))"
    unfolding trim_def strip_leading_def by (rule strip_trailing_decomp)
  then have "takeWhile is_js_space name @ dropWhile is_js_space name
        = takeWhile is_js_space name @ trim name
          @ rev (takeWhile is_js_space (rev (dropWhile is_js_space name)))"
    by (rule arg_cong)
  then show ?thesis by (simp only: takeWhile_dropWhile_id)
qed

lemma trim_ends:
  assumes "trim name \<noteq> []"
  shows "\<not> is_js_space (hd (trim name))" "\<not> is_js_space (last (trim name))"
proof -
  let ?l = "strip_leading is_js_space name"
  have t: "trim name = strip_trailing is_js_space ?l" by (simp add: trim_def)
  from assms have "?l \<noteq> []" by (auto simp: t strip_trailing_def)
  then have "\<not> is_js_space (hd ?l)"
    unfolding strip_leading_def by (rule hd_dropWhile)
  moreover have "hd (trim name) = hd ?l"
    using assms unfolding t by (rule strip_trailing_hd)
  ultimately show "\<not> is_js_space (hd (trim name))" by simp
  show "\<not> is_js_space (last (trim name))"
    using assms strip_trailing_last [of is_js_space ?l] unfolding t by simp
qed

subsection \<open>The conflict suffix\<close>


lemma addConflictSuffix_positive:
  "0 < r \<Longrightarrow>
   addConflictSuffix other fileName (Finite r)
     = fst (splitNameAndExt fileName) @ '' ('' @ numberToString other (Finite r) @ '')''
       @ snd (splitNameAndExt fileName)"
  by (simp add: addConflictSuffix_def isFinite_def split: prod.splits)

lemma number_text_cases:
  "numberToString other (Finite r)
     = (if of_int \<lfloor>r\<rfloor> = r \<and> \<bar>r\<bar> < 2 ^ 53
        then (if r < 0 then ''-'' else []) @ decimal (nat \<bar>\<lfloor>r\<rfloor>\<bar>) else other r)"
  by (simp add: numberToString_def is_integer_def)


subsection \<open>Renaming changes the name\<close>
















section \<open>The claims about the path and name utilities\<close>

text \<open>
  Claim C7, as amended. \<^verbatim>\<open>sanitizeFileName\<close> trims the name: the trimmed name is the name
  without the white space before and after it, and it neither starts nor ends with white
  space. The result is never empty. When the trimmed name is empty the result is the
  fallback id followed by \<^verbatim>\<open>.jpg\<close>. When it is not, the result is the trimmed name read
  position by position: a character other than \<^verbatim>\<open>\ / : * ? " < > |\<close> is kept, such a
  character that starts a run becomes one underscore, and such a character that continues
  a run is dropped; so the result contains none of those characters.
\<close>

theorem sanitizeFileName_collapses_runs:
  "sanitizeFileName name fallbackId \<noteq> [] \<and>
   (trim name = [] \<longrightarrow> sanitizeFileName name fallbackId = fallbackId @ ''.jpg'') \<and>
   (trim name \<noteq> [] \<longrightarrow>
      sanitizeFileName name fallbackId
        = concat (map (spec_at (trim name)) [0..<length (trim name)]) \<and>
      (\<forall>c\<in>set (sanitizeFileName name fallbackId). \<not> unsafe_char c)) \<and>
   (\<exists>before after. name = before @ trim name @ after \<and>
      (\<forall>c\<in>set before. is_js_space c) \<and> (\<forall>c\<in>set after. is_js_space c)) \<and>
   (trim name \<noteq> [] \<longrightarrow>
      \<not> is_js_space (hd (trim name)) \<and> \<not> is_js_space (last (trim name)))"
proof (intro conjI impI)
  show "sanitizeFileName name fallbackId \<noteq> []"
    by (simp add: sanitizeFileName_def Let_def)
next
  assume "trim name = []"
  then show "sanitizeFileName name fallbackId = fallbackId @ ''.jpg''"
    by (simp add: sanitizeFileName_def)
next
  assume ne: "trim name \<noteq> []"
  then have s: "sanitizeFileName name fallbackId = replace_unsafe_runs (trim name)"
    by (simp add: sanitizeFileName_def Let_def replace_unsafe_runs_Nil_iff)
  show "sanitizeFileName name fallbackId
        = concat (map (spec_at (trim name)) [0..<length (trim name)])"
    unfolding s replace_unsafe_runs_spec collapse_spec_def ..
  show "\<forall>c\<in>set (sanitizeFileName name fallbackId). \<not> unsafe_char c"
    unfolding s by (rule replace_unsafe_runs_clean)
  show "\<not> is_js_space (hd (trim name))" using ne by (rule trim_ends)
  show "\<not> is_js_space (last (trim name))" using ne by (rule trim_ends)
next
  let ?before = "takeWhile is_js_space name"
  let ?after = "rev (takeWhile is_js_space (rev (dropWhile is_js_space name)))"
  have "name = ?before @ trim name @ ?after" by (rule trim_decomp)
  moreover have "\<forall>c\<in>set ?before. is_js_space c" by (auto dest: set_takeWhileD)
  moreover have "\<forall>c\<in>set ?after. is_js_space c" by (auto dest: set_takeWhileD)
  ultimately show "\<exists>before after. name = before @ trim name @ after \<and>
      (\<forall>c\<in>set before. is_js_space c) \<and> (\<forall>c\<in>set after. is_js_space c)"
    by blast
qed

theorem sanitizeFileName_collapses_runs_witness:
  "sanitizeFileName '' a//b:c '' ''7'' = ''a_b_c'' \<and> sanitizeFileName ''  '' ''7'' = ''7.jpg''"
proof -
  have t: "trim '' a//b:c '' = ''a//b:c''" by code_simp
  have c: "concat (map (spec_at ''a//b:c'') [0..<length ''a//b:c'']) = ''a_b_c''" by code_simp
  have e: "trim ''  '' = []" by code_simp
  have "sanitizeFileName '' a//b:c '' ''7'' = ''a_b_c''"
    using sanitizeFileName_collapses_runs [of "'' a//b:c ''" "''7''"] unfolding t c by simp
  moreover have "sanitizeFileName ''  '' ''7'' = ''7.jpg''"
    using sanitizeFileName_collapses_runs [of "''  ''" "''7''"] unfolding e by simp
  ultimately show ?thesis by (rule conjI)
qed

text \<open>
  Claim C7 as stated fails twice. A run of two such characters becomes one underscore,
  not two; and the fallback id is returned as it is, so a fallback id with a slash gives a
  name with a slash.
\<close>

theorem sanitizeFileName_counterexample:
  "sanitizeFileName ''a//b'' ''0'' = ''a_b'' \<and>
   map (\<lambda>c. if unsafe_char c then CHR ''_'' else c) ''a//b'' = ''a__b'' \<and>
   sanitizeFileName [] ''a/b'' = ''a/b.jpg'' \<and> unsafe_char CHR ''/''"
  using sanitize_counter_1 sanitize_counter_2 sanitize_counter_3 sanitize_counter_4
  by (intro conjI)

text \<open>
  Claim C8, as amended. \<^verbatim>\<open>addConflictSuffix\<close> returns the file name unchanged for an attempt
  that is \<^verbatim>\<open>NaN\<close>, an infinity, or a finite number that is not positive. For a finite
  positive attempt it inserts the text of the attempt in parentheses, after a space,
  before the extension: the part from the last dot on, when that dot is not the first
  character; a name with no dot after its first character gets the suffix at its end. The
  text of an integer attempt below \<open>2^53\<close> is its decimal numeral, so that
  \<^verbatim>\<open>addConflictSuffix("photo.jpg", 1)\<close> is \<^verbatim>\<open>photo (1).jpg\<close>, \<^verbatim>\<open>addConflictSuffix("noext", 2)\<close>
  is \<^verbatim>\<open>noext (2)\<close> and \<^verbatim>\<open>addConflictSuffix("photo.jpg", 0)\<close> is \<^verbatim>\<open>photo.jpg\<close>.
\<close>

theorem addConflictSuffix_guarded:
  "(attempt = NaN \<or> attempt = PosInfinity \<or> attempt = NegInfinity \<or>
    (\<exists>r. attempt = Finite r \<and> r \<le> 0)
      \<longrightarrow> addConflictSuffix other fileName attempt = fileName) \<and>
   (0 < r \<and> stem \<noteq> [] \<and> CHR ''.'' \<notin> set ext \<longrightarrow>
      addConflictSuffix other (stem @ ''.'' @ ext) (Finite r)
        = stem @ '' (''
          @ (if of_int \<lfloor>r\<rfloor> = r \<and> r < 2 ^ 53 then decimal (nat \<lfloor>r\<rfloor>) else other r)
          @ '')'' @ ''.'' @ ext) \<and>
   (0 < r \<and> CHR ''.'' \<notin> set (tl fileName) \<longrightarrow>
      addConflictSuffix other fileName (Finite r)
        = fileName @ '' (''
          @ (if of_int \<lfloor>r\<rfloor> = r \<and> r < 2 ^ 53 then decimal (nat \<lfloor>r\<rfloor>) else other r)
          @ '')'') \<and>
   addConflictSuffix other ''photo.jpg'' (Finite 1) = ''photo (1).jpg'' \<and>
   addConflictSuffix other ''noext'' (Finite 2) = ''noext (2)'' \<and>
   addConflictSuffix other ''photo.jpg'' (Finite 0) = ''photo.jpg''"
proof -
  have num_text: "numberToString other (Finite q)
        = (if of_int \<lfloor>q\<rfloor> = q \<and> q < 2 ^ 53 then decimal (nat \<lfloor>q\<rfloor>) else other q)"
    if "0 < q" for q
  proof -
    from that have "\<bar>q\<bar> = q" "\<not> q < 0" "0 \<le> \<lfloor>q\<rfloor>" by simp_all
    then show ?thesis by (simp add: number_text_cases)
  qed
  have unchanged: "addConflictSuffix other fileName attempt = fileName"
    if "attempt = NaN \<or> attempt = PosInfinity \<or> attempt = NegInfinity \<or>
        (\<exists>r. attempt = Finite r \<and> r \<le> 0)"
    using that by (auto simp: addConflictSuffix_def isFinite_def)
  have with_ext: "addConflictSuffix other (stem @ ''.'' @ ext) (Finite r)
        = stem @ '' (''
          @ (if of_int \<lfloor>r\<rfloor> = r \<and> r < 2 ^ 53 then decimal (nat \<lfloor>r\<rfloor>) else other r)
          @ '')'' @ ''.'' @ ext"
    if "0 < r \<and> stem \<noteq> [] \<and> CHR ''.'' \<notin> set ext" for r stem ext
    using that splitNameAndExt_ext [of stem ext]
    by (simp add: addConflictSuffix_positive num_text)
  have no_ext: "addConflictSuffix other f (Finite r)
        = f @ '' (''
          @ (if of_int \<lfloor>r\<rfloor> = r \<and> r < 2 ^ 53 then decimal (nat \<lfloor>r\<rfloor>) else other r)
          @ '')''"
    if "0 < r \<and> CHR ''.'' \<notin> set (tl f)" for r f
    using that splitNameAndExt_no_ext [of f]
    by (simp add: addConflictSuffix_positive num_text)
  have d: "decimal (Suc 0) = ''1''" "decimal 2 = ''2''" by code_simp+
  have ex1: "addConflictSuffix other ''photo.jpg'' (Finite 1) = ''photo (1).jpg''"
    using with_ext [of 1 "''photo''" "''jpg''"] by (simp add: d)
  have ex2: "addConflictSuffix other ''noext'' (Finite 2) = ''noext (2)''"
    using no_ext [of 2 "''noext''"] by (simp add: d)
  have ex3: "addConflictSuffix other ''photo.jpg'' (Finite 0) = ''photo.jpg''"
    by (simp add: addConflictSuffix_def)
  show ?thesis
    using unchanged with_ext [of r stem ext] no_ext [of r fileName] ex1 ex2 ex3
    by (intro conjI impI) assumption+
qed

theorem addConflictSuffix_guarded_witness:
  "addConflictSuffix example_number_text ''a.tar.gz'' (Finite 12) = ''a.tar (12).gz'' \<and>
   addConflictSuffix example_number_text ''.hidden'' (Finite (3 / 2)) = ''.hidden (?)'' \<and>
   addConflictSuffix example_number_text ''x'' (Finite (- 4)) = ''x''"
proof -
  have d: "decimal 12 = ''12''" by code_simp
  have f: "\<lfloor>12 :: rat\<rfloor> = 12" "\<lfloor>3 / 2 :: rat\<rfloor> = 1" by (simp_all add: floor_eq_iff)
  have "addConflictSuffix example_number_text ''a.tar.gz'' (Finite 12) = ''a.tar (12).gz''"
    using addConflictSuffix_guarded
      [of "Finite 12" example_number_text "''a.tar.gz''" 12 "''a.tar''" "''gz''"]
    by (simp add: d)
  moreover
  have "addConflictSuffix example_number_text ''.hidden'' (Finite (3 / 2)) = ''.hidden (?)''"
    using addConflictSuffix_guarded
      [of "Finite (3 / 2)" example_number_text "''.hidden''" "3 / 2" "''x''" "''y''"]
    by (simp add: f example_number_text_def)
  moreover have "addConflictSuffix example_number_text ''x'' (Finite (- 4)) = ''x''"
    using addConflictSuffix_guarded
      [of "Finite (- 4)" example_number_text "''x''" 1 "''x''" "''y''"]
    by simp
  ultimately show ?thesis by simp
qed

text \<open>
  Claim C8 as stated fails for an attempt that is not finite: \<^verbatim>\<open>Infinity\<close> and \<^verbatim>\<open>NaN\<close> are
  not \<open>\<le> 0\<close>, and the name comes back unchanged, with no suffix inserted.
\<close>

theorem addConflictSuffix_counterexample:
  "\<not> js_le (PosInfinity :: rat jsnum) (Finite 0) \<and>
   addConflictSuffix example_number_text ''photo.jpg'' PosInfinity = ''photo.jpg'' \<and>
   \<not> js_le (NaN :: rat jsnum) (Finite 0) \<and>
   addConflictSuffix example_number_text ''photo.jpg'' NaN = ''photo.jpg''"
  by (simp add: addConflictSuffix_def isFinite_def)


text \<open>
  Claim C10. \<^verbatim>\<open>joinUploadPath\<close> drops the empty segments and the segments \<^verbatim>\<open>.\<close> and nothing
  else: the segments of its result are the other segments of the normalised parts, in
  order, so a segment \<^verbatim>\<open>..\<close> stays in the path, as in \<^verbatim>\<open>joinUploadPath("a", "..")\<close>.
\<close>

theorem joinUploadPath_keeps_parent_segments:
  "joinUploadPath [''a'', ''..''] = ''a/..'' \<and>
   split_on slash (joinUploadPath parts) =
     (let segments = filter (\<lambda>seg. seg \<noteq> [] \<and> seg \<noteq> ''.'')
                       (concat (map (\<lambda>part. split_on slash (normalizeUploadPath part)) parts))
      in if segments = [] then [[]] else segments)"
proof
  show "joinUploadPath [''a'', ''..''] = ''a/..''"
    by code_simp
next
  define segments where
    "segments = filter keep_segment (concat (map (\<lambda>part. split_on slash (normalizeUploadPath part)) parts))"
  have ks: "keep_segment = (\<lambda>seg. seg \<noteq> [] \<and> seg \<noteq> ''.'')"
    by (auto simp: keep_segment_def fun_eq_iff)
  have no_slash: "\<forall>w\<in>set segments. slash \<notin> set w"
    by (auto simp: segments_def dest: split_on_no_sep)
  have j: "joinUploadPath parts = join_with [slash] segments"
    by (simp add: joinUploadPath_segments segments_def slash_def)
  have "split_on slash (joinUploadPath parts) = (if segments = [] then [[]] else segments)"
    using no_slash by (simp add: j split_on_join)
  then show "split_on slash (joinUploadPath parts) =
     (let segments = filter (\<lambda>seg. seg \<noteq> [] \<and> seg \<noteq> ''.'')
                       (concat (map (\<lambda>part. split_on slash (normalizeUploadPath part)) parts))
      in if segments = [] then [[]] else segments)"
    unfolding segments_def ks Let_def .
qed


section \<open>Properties of the status resolver\<close>

lemma send_simps [simp]:
  "ticks (send r s) = ticks s + 1" "requests (send r s) = requests s @ [r]"
  "candidates (send r s) = candidates s" "localMirrorTargets (send r s) = localMirrorTargets s"
  "failed (send r s) = failed s" "skipped (send r s) = skipped s"
  "plannedBytes (send r s) = plannedBytes s" "uploaded (send r s) = uploaded s"
  "uploadedBytes (send r s) = uploadedBytes s" "discovered (send r s) = discovered s"
  "remoteDeleted (send r s) = remoteDeleted s" "remoteDeleteFailed (send r s) = remoteDeleteFailed s"
  by (simp_all add: send_def tick_def)

lemma cancelRef_mono: "ticks s \<le> ticks s' \<Longrightarrow> cancelRef e s \<Longrightarrow> cancelRef e s'"
  by (auto simp: cancelRef_def split: option.splits)

lemma cancelRef_ticks: "ticks s = ticks s' \<Longrightarrow> cancelRef e s' = cancelRef e s"
  by (simp add: cancelRef_def split: option.splits)


text \<open>The rename probe loop only sends status requests without the overwrite flag.\<close>

lemma resolveRenameFrom_effect:
  "resolveRenameFrom e c k s = (r, s') \<Longrightarrow>
     \<exists>new. s' = s\<lparr>requests := requests s @ new, ticks := ticks s + length new\<rparr> \<and>
           (\<forall>q\<in>set new. \<exists>rc. q = StatusReq False rc)"
proof (induction e c k s arbitrary: r s' rule: resolveRenameFrom.induct)
  case (1 e candidate attempt s)
  show ?case
  proof (cases "attempt \<le> MAX_RENAME_ATTEMPTS \<and> \<not> cancelRef e s")
    case False
    with 1(2) have "s' = s" by (simp add: resolveRenameFrom.simps [of e candidate attempt s])
    then show ?thesis by (intro exI [of _ "[]"]) simp
  next
    case True
    let ?rc = "renameCandidateForAttempt (number_text e) candidate (Finite (of_nat attempt))"
    let ?s1 = "send (StatusReq False ?rc) s"
    have s1: "?s1 = s\<lparr>requests := requests s @ [StatusReq False ?rc], ticks := ticks s + 1\<rparr>"
      by (simp add: send_def tick_def)
    show ?thesis
    proof (cases "status_reply_at e (ticks s)")
      case (StatusFailed code msg)
      show ?thesis
      proof (cases "code = ''exists''")
        case ex: True
        from 1(2) True StatusFailed ex
        have rec: "resolveRenameFrom e candidate (attempt + 1) ?s1 = (r, s')"
          by (simp add: resolveRenameFrom.simps [of e candidate attempt s] Let_def)
        from 1(1) [OF True refl refl refl StatusFailed ex rec]
        obtain new where new: "s' = ?s1\<lparr>requests := requests ?s1 @ new, ticks := ticks ?s1 + length new\<rparr>"
          "\<forall>q\<in>set new. \<exists>rc. q = StatusReq False rc" by blast
        show ?thesis
          using new by (intro exI [of _ "StatusReq False ?rc # new"]) (simp add: send_def tick_def)
      next
        case nex: False
        from 1(2) True StatusFailed nex have "s' = ?s1"
          by (simp add: resolveRenameFrom.simps [of e candidate attempt s] Let_def)
        then show ?thesis by (intro exI [of _ "[StatusReq False ?rc]"]) (simp add: s1)
      qed
    next
      case (StatusOk st off)
      with 1(2) True have "s' = ?s1"
        by (simp add: resolveRenameFrom.simps [of e candidate attempt s] Let_def
            split: if_splits)
      then show ?thesis by (intro exI [of _ "[StatusReq False ?rc]"]) (simp add: s1)
    qed
  qed
qed

lemma resolveRenameFrom_ready:
  "resolveRenameFrom e c k s = (RenameReady rc off, s') \<Longrightarrow>
     \<exists>j. k \<le> j \<and> j \<le> MAX_RENAME_ATTEMPTS \<and>
         rc = renameCandidateForAttempt (number_text e) c (Finite (of_nat j)) \<and>
         \<not> js_ge off (size_bytes rc)"
proof (induction e c k s arbitrary: s' rule: resolveRenameFrom.induct)
  case (1 e candidate attempt s)
  show ?case
  proof (cases "attempt \<le> MAX_RENAME_ATTEMPTS \<and> \<not> cancelRef e s")
    case False
    with 1(2) show ?thesis by (simp add: resolveRenameFrom.simps [of e candidate attempt s])
  next
    case True
    show ?thesis
    proof (cases "status_reply_at e (ticks s)")
      case (StatusFailed code msg)
      show ?thesis
      proof (cases "code = ''exists''")
        case ex: True
        from 1(2) True StatusFailed ex
        have rec: "resolveRenameFrom e candidate (attempt + 1)
                     (send (StatusReq False
                        (renameCandidateForAttempt (number_text e) candidate (Finite (of_nat attempt)))) s)
                   = (RenameReady rc off, s')"
          by (simp add: resolveRenameFrom.simps [of e candidate attempt s] Let_def)
        from 1(1) [OF True refl refl refl StatusFailed ex rec]
        show ?thesis by (auto intro: Suc_leD)
      next
        case nex: False
        with 1(2) True StatusFailed show ?thesis
          by (simp add: resolveRenameFrom.simps [of e candidate attempt s] Let_def)
      qed
    next
      case (StatusOk st off')
      with 1(2) True show ?thesis
        by (auto simp: resolveRenameFrom.simps [of e candidate attempt s] Let_def
            split: if_splits intro!: exI [of _ attempt])
    qed
  qed
qed

lemma count_simps [simp]:
  "candidates (count_skipped s) = candidates s" "skipped (count_skipped s) = skipped s + 1"
  "failed (count_skipped s) = failed s" "ticks (count_skipped s) = ticks s"
  "requests (count_skipped s) = requests s"
  "localMirrorTargets (count_skipped s) = localMirrorTargets s"
  "candidates (count_failed s) = candidates s" "skipped (count_failed s) = skipped s"
  "failed (count_failed s) = failed s + 1" "ticks (count_failed s) = ticks s"
  "requests (count_failed s) = requests s"
  "localMirrorTargets (count_failed s) = localMirrorTargets s"
  by (simp_all add: count_skipped_def count_failed_def)

lemma addReadyCandidate_simps [simp]:
  "candidates (addReadyCandidate c off ow s)
     = candidates s @ [c\<lparr>initialOffset := js_max (Finite 0) (js_min (or_zero off) (size_bytes c)),
                          overwrite := ow\<rparr>]"
  "skipped (addReadyCandidate c off ow s) = skipped s"
  "failed (addReadyCandidate c off ow s) = failed s"
  "ticks (addReadyCandidate c off ow s) = ticks s"
  "requests (addReadyCandidate c off ow s) = requests s"
  "localMirrorTargets (addReadyCandidate c off ow s) = localMirrorTargets s"
  by (simp_all add: addReadyCandidate_def Let_def)

lemma positive_attempt: "0 < j \<Longrightarrow> \<not> js_le (Finite (of_nat j) :: rat jsnum) (Finite 0)"
  by simp

lemma renamed_overwrite:
  "0 < j \<Longrightarrow> \<not> overwrite (renameCandidateForAttempt other c (Finite (of_nat j)))"
  by (simp add: renameCandidateForAttempt_def Let_def)

lemma renamed_size: "size_bytes (renameCandidateForAttempt other c a) = size_bytes c"
  by (simp add: renameCandidateForAttempt_def Let_def)


text \<open>What \<^verbatim>\<open>resolveRenameCandidate\<close> leaves behind, by outcome.\<close>

lemma classify_rename:
  assumes "status_of it = ''exists''"
    "\<not> js_ge (js_max (Finite 0) (item_offset it)) (size_bytes c)"
  shows "\<exists>new. (\<forall>q\<in>set new. \<exists>rc. q = StatusReq False rc) \<and>
     (let s1 = s\<lparr>requests := requests s @ new, ticks := ticks s + length new\<rparr>
      in classify e PolicyRename c (Some it) s = count_skipped s1 \<or>
         classify e PolicyRename c (Some it) s = count_failed s1 \<or>
         (\<exists>j off. 1 \<le> j \<and> j \<le> MAX_RENAME_ATTEMPTS \<and> \<not> js_ge off (size_bytes c) \<and>
            classify e PolicyRename c (Some it) s
              = addReadyCandidate
                  (renameCandidateForAttempt (number_text e) c (Finite (of_nat j))) off False s1))"
proof -
  obtain r s' where rs: "resolveRenameFrom e c 1 s = (r, s')" by (cases "resolveRenameFrom e c 1 s")
  from resolveRenameFrom_effect [OF rs] obtain new where
    new: "s' = s\<lparr>requests := requests s @ new, ticks := ticks s + length new\<rparr>"
      "\<forall>q\<in>set new. \<exists>rc. q = StatusReq False rc" by blast
  have cl: "classify e PolicyRename c (Some it) s =
        (case r of RenameReady rc off \<Rightarrow> addReadyCandidate rc off False s'
         | RenameSkipped \<Rightarrow> count_skipped s' | RenameFailed \<Rightarrow> count_failed s')"
    using assms rs by (simp add: classify_def resolveRenameCandidate_def Let_def)
  show ?thesis
  proof (cases r)
    case (RenameReady rc off)
    from resolveRenameFrom_ready [OF rs [unfolded RenameReady]] obtain j where
      j: "1 \<le> j" "j \<le> MAX_RENAME_ATTEMPTS"
        "rc = renameCandidateForAttempt (number_text e) c (Finite (of_nat j))"
        "\<not> js_ge off (size_bytes rc)" by blast
    from j(3,4) have "\<not> js_ge off (size_bytes c)" by (simp add: renamed_size)
    with cl RenameReady j new show ?thesis
      by (intro exI [of _ new]) (auto simp: Let_def)
  next
    case RenameSkipped
    with cl new show ?thesis by (intro exI [of _ new]) (simp add: Let_def)
  next
    case RenameFailed
    with cl new show ?thesis by (intro exI [of _ new]) (simp add: Let_def)
  qed
qed


text \<open>What one iteration may change, whatever the policy.\<close>

lemma classify_frame:
  "\<exists>new. requests (classify e policy c slot s) = requests s @ new \<and>
         ticks (classify e policy c slot s) = ticks s + length new \<and>
         (\<forall>q\<in>set new. \<exists>rc. q = StatusReq False rc) \<and>
         (policy \<noteq> PolicyRename \<longrightarrow> new = [])"
  and classify_counters:
  "failed s \<le> failed (classify e policy c slot s)"
  "skipped s \<le> skipped (classify e policy c slot s)"
  "localMirrorTargets (classify e policy c slot s) = localMirrorTargets s"
proof -
  obtain r s1 where rs: "resolveRenameFrom e c 1 s = (r, s1)"
    by (cases "resolveRenameFrom e c 1 s")
  from resolveRenameFrom_effect [OF rs] obtain new where
    new: "s1 = s\<lparr>requests := requests s @ new, ticks := ticks s + length new\<rparr>"
      "\<forall>q\<in>set new. \<exists>rc. q = StatusReq False rc" by blast
  have plain: "\<exists>new. requests s = requests s @ new \<and> ticks s = ticks s + length new \<and>
         (\<forall>q\<in>set new. \<exists>rc. q = StatusReq False rc) \<and> (policy \<noteq> PolicyRename \<longrightarrow> new = [])"
    by (intro exI [of _ "[]"]) simp
  have probed: "\<exists>new. requests s1 = requests s @ new \<and> ticks s1 = ticks s + length new \<and>
         (\<forall>q\<in>set new. \<exists>rc. q = StatusReq False rc)"
    using new by (intro exI [of _ new]) simp
  show "\<exists>new. requests (classify e policy c slot s) = requests s @ new \<and>
         ticks (classify e policy c slot s) = ticks s + length new \<and>
         (\<forall>q\<in>set new. \<exists>rc. q = StatusReq False rc) \<and>
         (policy \<noteq> PolicyRename \<longrightarrow> new = [])"
    using plain probed rs
    by (cases r) (auto simp: classify_def resolveRenameCandidate_def Let_def split: option.splits)
  show "failed s \<le> failed (classify e policy c slot s)"
    using new(1) rs
    by (cases r) (auto simp: classify_def resolveRenameCandidate_def Let_def split: option.splits)
  show "skipped s \<le> skipped (classify e policy c slot s)"
    using new(1) rs
    by (cases r) (auto simp: classify_def resolveRenameCandidate_def Let_def split: option.splits)
  show "localMirrorTargets (classify e policy c slot s) = localMirrorTargets s"
    using new(1) rs
    by (cases r) (auto simp: classify_def resolveRenameCandidate_def Let_def split: option.splits)
qed

lemma classify_ticks: "ticks s \<le> ticks (classify e policy c slot s)"
  using classify_frame [of e policy c slot s] by auto

lemma status_loop_ticks: "ticks s \<le> ticks (status_loop e policy zs s)"
proof (induction zs arbitrary: s)
  case Nil
  show ?case by simp
next
  case (Cons z zs)
  obtain c slot where z: "z = (c, slot)" by (cases z)
  show ?case
    using Cons [of "classify e policy c slot s"] classify_ticks [of s e policy c slot]
    by (simp add: z)
qed


subsection \<open>Matching the results of a batch\<close>

















section \<open>The claims about the status resolver\<close>










end
